theory Spec2Isabelle
  imports Complex_Main
begin

section \<open>Floating-point values\<close>

text \<open>
  The program computes with Python floats and NumPy float64 values. A value is a real
  number, one of the two infinities, or NaN. Special values follow IEEE 754. The product
  and the quotient of two finite values are kept exact inside the binary64 range, and
  become an infinity when their magnitude reaches the overflow threshold, as
  round-to-nearest does. Negative zero is identified with zero: the program only compares
  zeros, and both zeros compare equal.
\<close>

datatype pyfloat = Finite real | PosInf | NegInf | NaN

datatype error = ZeroDivisionError | TclError

definition overflow_threshold :: real where
  "overflow_threshold = 2 ^ 1024 - 2 ^ 970"

definition to_float :: "real \<Rightarrow> pyfloat" where
  "to_float r =
     (if overflow_threshold \<le> r then PosInf
      else if r \<le> - overflow_threshold then NegInf
      else Finite r)"

definition in_range :: "real \<Rightarrow> bool" where
  \<comment> \<open>the magnitude of a binary64 number stays below the overflow threshold\<close>
  "in_range r = (\<bar>r\<bar> < overflow_threshold)"

fun is_finite :: "pyfloat \<Rightarrow> bool" where
  "is_finite (Finite r) = True"
| "is_finite PosInf = False"
| "is_finite NegInf = False"
| "is_finite NaN = False"

fun f_le :: "pyfloat \<Rightarrow> pyfloat \<Rightarrow> bool" where
  \<comment> \<open>\<open>x <= y\<close>: every comparison with NaN is false\<close>
  "f_le (Finite x) (Finite y) = (x \<le> y)"
| "f_le (Finite x) PosInf = True"
| "f_le (Finite x) NegInf = False"
| "f_le PosInf PosInf = True"
| "f_le PosInf (Finite y) = False"
| "f_le PosInf NegInf = False"
| "f_le NegInf (Finite y) = True"
| "f_le NegInf PosInf = True"
| "f_le NegInf NegInf = True"
| "f_le NaN y = False"
| "f_le x NaN = False"

definition f_ge :: "pyfloat \<Rightarrow> pyfloat \<Rightarrow> bool" where
  \<comment> \<open>\<open>x >= y\<close>\<close>
  "f_ge x y = f_le y x"

definition f_eq :: "pyfloat \<Rightarrow> pyfloat \<Rightarrow> bool" where
  \<comment> \<open>\<open>x == y\<close>: NaN equals nothing, itself included\<close>
  "f_eq x y = (x \<noteq> NaN \<and> x = y)"

fun fmul :: "pyfloat \<Rightarrow> pyfloat \<Rightarrow> pyfloat" where
  \<comment> \<open>\<open>x * y\<close>: infinity times zero is NaN\<close>
  "fmul (Finite x) (Finite y) = to_float (x * y)"
| "fmul (Finite x) PosInf = (if x = 0 then NaN else if 0 < x then PosInf else NegInf)"
| "fmul (Finite x) NegInf = (if x = 0 then NaN else if 0 < x then NegInf else PosInf)"
| "fmul PosInf (Finite y) = (if y = 0 then NaN else if 0 < y then PosInf else NegInf)"
| "fmul NegInf (Finite y) = (if y = 0 then NaN else if 0 < y then NegInf else PosInf)"
| "fmul PosInf PosInf = PosInf"
| "fmul PosInf NegInf = NegInf"
| "fmul NegInf PosInf = NegInf"
| "fmul NegInf NegInf = PosInf"
| "fmul NaN y = NaN"
| "fmul x NaN = NaN"

fun fdiv :: "pyfloat \<Rightarrow> pyfloat \<Rightarrow> pyfloat" where
  \<comment> \<open>the quotient by a divisor other than zero\<close>
  "fdiv (Finite x) (Finite y) = to_float (x / y)"
| "fdiv (Finite x) PosInf = Finite 0"
| "fdiv (Finite x) NegInf = Finite 0"
| "fdiv PosInf (Finite y) = (if 0 < y then PosInf else NegInf)"
| "fdiv NegInf (Finite y) = (if 0 < y then NegInf else PosInf)"
| "fdiv PosInf PosInf = NaN"
| "fdiv PosInf NegInf = NaN"
| "fdiv NegInf PosInf = NaN"
| "fdiv NegInf NegInf = NaN"
| "fdiv NaN y = NaN"
| "fdiv x NaN = NaN"

definition py_div :: "pyfloat \<Rightarrow> pyfloat \<Rightarrow> error + pyfloat" where
  \<comment> \<open>\<open>x / y\<close> on Python floats: a zero divisor raises, whatever the dividend\<close>
  "py_div x y = (if y = Finite 0 then Inl ZeroDivisionError else Inr (fdiv x y))"

subsection \<open>The library functions\<close>

text \<open>
  \<open>np.arccos\<close> and \<open>np.tan\<close> return binary64 values, not the real arc cosine and
  tangent, and the error of the first is amplified by the second near a quarter turn. The
  model does not fix the rounding of the library: the relative error it commits at each
  argument is a parameter, clipped to \<open>rel_err\<close> (four units in the last place, which
  covers the C library and the vectorised routines of NumPy), so that what is proved holds
  for every library of that accuracy. An arc cosine and a tangent of zero are exact.
  On arguments from 0 to 1 the arc cosine is at most \<open>half_pi_float\<close>, the binary64
  value nearest to a quarter turn (it is what \<open>np.arccos(0.0)\<close> returns, and lies below
  the real quarter turn).
\<close>

record libm =
  arccos_err :: "real \<Rightarrow> real"
  tan_err :: "real \<Rightarrow> real"

definition rel_err :: real where
  "rel_err = 1 / 2 ^ 50"

definition clip :: "real \<Rightarrow> real" where
  "clip e = max (- rel_err) (min rel_err e)"

definition half_pi_float :: real where
  "half_pi_float = 884279719003555 / 2 ^ 49"

definition exact_libm :: libm where
  \<comment> \<open>the library that commits no error before the cap\<close>
  "exact_libm = \<lparr>arccos_err = (\<lambda>x. 0), tan_err = (\<lambda>x. 0)\<rparr>"

fun np_arccos :: "libm \<Rightarrow> pyfloat \<Rightarrow> pyfloat" where
  \<comment> \<open>\<open>np.arccos\<close>: NaN outside the interval from -1 to 1\<close>
  "np_arccos L (Finite x) =
     (if - 1 \<le> x \<and> x \<le> 1 then
        (let y = arccos x * (1 + clip (arccos_err L x))
         in Finite (if 0 \<le> x then min half_pi_float y else y))
      else NaN)"
| "np_arccos L PosInf = NaN"
| "np_arccos L NegInf = NaN"
| "np_arccos L NaN = NaN"

fun np_tan :: "libm \<Rightarrow> pyfloat \<Rightarrow> pyfloat" where
  \<comment> \<open>\<open>np.tan\<close>: NaN at an infinity\<close>
  "np_tan L (Finite x) = Finite (tan x * (1 + clip (tan_err L x)))"
| "np_tan L PosInf = NaN"
| "np_tan L NegInf = NaN"
| "np_tan L NaN = NaN"

section \<open>The power triangle\<close>

record triangle =
  P :: pyfloat
  Q :: pyfloat
  S :: pyfloat
  angle :: pyfloat

definition compute :: "libm \<Rightarrow> pyfloat \<Rightarrow> pyfloat \<Rightarrow> error + triangle" where
  \<comment> \<open>the branch of \<open>update_plot\<close> that turns the two inputs into P, Q, S and the angle\<close>
  "compute L P_input pf =
     (if f_eq pf (Finite 0) then
        Inr \<lparr>P = Finite 0, Q = P_input, S = P_input, angle = Finite (pi / 2)\<rparr>
      else
        (let P' = P_input;
             angle' = np_arccos L pf;
             Q' = fmul P' (np_tan L angle')
         in case py_div P' pf of
              Inl e \<Rightarrow> Inl e
            | Inr S' \<Rightarrow> Inr \<lparr>P = P', Q = Q', S = S', angle = angle'\<rparr>))"


definition all_finite :: "triangle \<Rightarrow> bool" where
  "all_finite r = (is_finite (P r) \<and> is_finite (Q r) \<and> is_finite (S r) \<and> is_finite (angle r))"

section \<open>The simulation's state\<close>

text \<open>
  \<open>update_plot\<close> reads the two Tk variables and redraws. A variable yields a float, or
  its \<open>get\<close> raises when the field holds no number (the empty field, which the validators
  let through). Of the drawing and the reference panel the state keeps the figures they
  show; the calls into the plotting and widget libraries are not modelled.
\<close>

record sim_state =
  active_power :: "pyfloat option"
  power_factor :: "pyfloat option"
  shown :: "triangle option"

definition update_plot :: "libm \<Rightarrow> sim_state \<Rightarrow> error + sim_state" where
  "update_plot L st =
     (case active_power st of
        None \<Rightarrow> Inl TclError
      | Some P_input \<Rightarrow>
          (case power_factor st of
             None \<Rightarrow> Inl TclError
           | Some pf \<Rightarrow>
               (case compute L P_input pf of
                  Inl e \<Rightarrow> Inl e
                | Inr t \<Rightarrow> Inr (st\<lparr>shown := Some t\<rparr>))))"

section \<open>Python's float parser\<close>

text \<open>
  \<open>float(s)\<close> on a string: surrounding whitespace is stripped, underscores are allowed
  between digits only, and what remains is a signed decimal number with an optional
  fraction and exponent, or a spelling of infinity or NaN in any letter case. \<open>None\<close>
  stands for \<open>ValueError\<close>. A string is a list of code points below 256. The decimal
  value is converted by \<open>to_float\<close>: exact inside the binary64 range.
\<close>

definition is_space :: "char \<Rightarrow> bool" where
  "is_space c = (of_char c \<in> {9, 10, 11, 12, 13, 32, 133, 160 :: nat})"

definition strip :: "string \<Rightarrow> string" where
  "strip s = rev (dropWhile is_space (rev (dropWhile is_space s)))"

definition is_digit :: "char \<Rightarrow> bool" where
  "is_digit c = (48 \<le> (of_char c :: nat) \<and> (of_char c :: nat) \<le> 57)"

definition digit_val :: "char \<Rightarrow> nat" where
  "digit_val c = of_char c - 48"

definition lower :: "char \<Rightarrow> char" where
  "lower c = (if 65 \<le> (of_char c :: nat) \<and> (of_char c :: nat) \<le> 90
              then char_of (of_char c + (32 :: nat)) else c)"

fun strip_underscores :: "char \<Rightarrow> string \<Rightarrow> string option" where
  \<comment> \<open>an underscore needs a digit before it and a digit after it\<close>
  "strip_underscores prev [] = (if prev = CHR ''_'' then None else Some [])"
| "strip_underscores prev (c # cs) =
     (if c = CHR ''_'' then
        (if is_digit prev then strip_underscores c cs else None)
      else if prev = CHR ''_'' \<and> \<not> is_digit c then None
      else map_option ((#) c) (strip_underscores c cs))"

definition digits_to_nat :: "string \<Rightarrow> nat" where
  "digits_to_nat ds = foldl (\<lambda>acc c. 10 * acc + digit_val c) 0 ds"

definition scale10 :: "nat \<Rightarrow> int \<Rightarrow> real" where
  \<comment> \<open>\<open>m\<close> times ten to the power \<open>e\<close>\<close>
  "scale10 m e = (if 0 \<le> e then of_nat m * 10 ^ nat e else of_nat m / 10 ^ nat (- e))"

definition split_sign :: "string \<Rightarrow> bool \<times> string" where
  \<comment> \<open>an optional sign: whether it is a minus, and the rest\<close>
  "split_sign s =
     (case s of
        [] \<Rightarrow> (False, [])
      | c # cs \<Rightarrow> if c = CHR ''-'' then (True, cs)
                  else if c = CHR ''+'' then (False, cs)
                  else (False, s))"

definition parse_exponent :: "string \<Rightarrow> int option" where
  \<comment> \<open>what follows the mantissa: nothing, or \<open>e\<close>, an optional sign and at least one digit\<close>
  "parse_exponent s =
     (case s of
        [] \<Rightarrow> Some 0
      | c # cs \<Rightarrow>
          if lower c = CHR ''e'' then
            (let (neg, ds) = split_sign cs
             in if ds \<noteq> [] \<and> list_all is_digit ds
                then Some (if neg then - int (digits_to_nat ds) else int (digits_to_nat ds))
                else None)
          else None)"

definition parse_decimal :: "string \<Rightarrow> pyfloat option" where
  "parse_decimal s =
     (let (neg, body) = split_sign s;
          ip = takeWhile is_digit body;
          rest = dropWhile is_digit body;
          fp = (case rest of
                  [] \<Rightarrow> []
                | c # cs \<Rightarrow> if c = CHR ''.'' then takeWhile is_digit cs else []);
          rest' = (case rest of
                     [] \<Rightarrow> []
                   | c # cs \<Rightarrow> if c = CHR ''.'' then dropWhile is_digit cs else rest)
      in if ip = [] \<and> fp = [] then None
         else (case parse_exponent rest' of
                 None \<Rightarrow> None
               | Some e \<Rightarrow>
                   (let m = scale10 (digits_to_nat (ip @ fp)) (e - int (length fp))
                    in Some (to_float (if neg then - m else m)))))"

definition parse_inf_or_nan :: "string \<Rightarrow> pyfloat option" where
  "parse_inf_or_nan s =
     (let (neg, body) = split_sign s;
          w = map lower body
      in if w = ''inf'' \<or> w = ''infinity'' then Some (if neg then NegInf else PosInf)
         else if w = ''nan'' then Some NaN
         else None)"

definition py_float :: "string \<Rightarrow> pyfloat option" where
  "py_float s =
     (case strip_underscores (CHR 0x00) (strip s) of
        None \<Rightarrow> None
      | Some u \<Rightarrow>
          (case parse_decimal u of
             Some v \<Rightarrow> Some v
           | None \<Rightarrow> parse_inf_or_nan u))"

section \<open>The keystroke validators\<close>

text \<open>
  Both validators call the built-in \<open>float\<close>; it is the parameter \<open>float_fn\<close>, so that
  what is proved of a validator holds for any parser, \<open>py_float\<close> among them.
\<close>

definition validate_active_power :: "(string \<Rightarrow> pyfloat option) \<Rightarrow> string \<Rightarrow> bool" where
  "validate_active_power float_fn new_value =
     (if new_value = [] then True
      else (case float_fn new_value of
              Some v \<Rightarrow> f_ge v (Finite 0)
            | None \<Rightarrow> False))"

definition validate_power_factor :: "(string \<Rightarrow> pyfloat option) \<Rightarrow> string \<Rightarrow> bool" where
  "validate_power_factor float_fn new_value =
     (if new_value = [] then True
      else (case float_fn new_value of
              Some v \<Rightarrow> f_le (Finite 0) v \<and> f_le v (Finite 1)
            | None \<Rightarrow> False))"

definition parses_as_real_ge0 :: "(string \<Rightarrow> pyfloat option) \<Rightarrow> string \<Rightarrow> bool" where
  \<comment> \<open>the spec's words: the string parses as a real number that is at least 0\<close>
  "parses_as_real_ge0 float_fn s =
     (case float_fn s of Some (Finite r) \<Rightarrow> 0 \<le> r | _ \<Rightarrow> False)"

definition parses_as_real_in_unit :: "(string \<Rightarrow> pyfloat option) \<Rightarrow> string \<Rightarrow> bool" where
  \<comment> \<open>the spec's words: the string parses as a real number in the closed interval from 0 to 1\<close>
  "parses_as_real_in_unit float_fn s =
     (case float_fn s of Some (Finite r) \<Rightarrow> 0 \<le> r \<and> r \<le> 1 | _ \<Rightarrow> False)"

section \<open>Facts about the arithmetic\<close>

lemma threshold_pos: "0 < overflow_threshold"
  by (simp add: overflow_threshold_def)

lemma to_float_in_range: "in_range r \<Longrightarrow> to_float r = Finite r"
  by (auto simp add: to_float_def in_range_def)

lemma to_float_zero: "to_float 0 = Finite 0"
  using threshold_pos by (simp add: to_float_def)

lemma to_float_nonneg:
  "0 \<le> r \<Longrightarrow> to_float r = (if overflow_threshold \<le> r then PosInf else Finite r)"
  using threshold_pos by (simp add: to_float_def)

lemma clip_bounds: "- rel_err \<le> clip e" "clip e \<le> rel_err"
  by (simp_all add: clip_def rel_err_def)


lemma one_plus_clip: "1 - rel_err \<le> 1 + clip e" "1 + clip e \<le> 1 + rel_err" "0 < 1 + clip e"
proof -
  show "1 - rel_err \<le> 1 + clip e" "1 + clip e \<le> 1 + rel_err"
    using clip_bounds [of e] by simp_all
  have "rel_err < 1" by (simp add: rel_err_def)
  then show "0 < 1 + clip e" using clip_bounds(1) [of e] by linarith
qed

lemma cos_sum_24:
  "(\<Sum>m<24. cos_coeff m * x ^ m) =
     1 - x^2 / 2 + x^4 / 24 - x^6 / 720 + x^8 / 40320 - x^10 / 3628800
       + x^12 / 479001600 - x^14 / 87178291200 + x^16 / 20922789888000
       - x^18 / 6402373705728000 + x^20 / 2432902008176640000
       - x^22 / 1124000727777607680000" for x :: real
  by (simp add: lessThan_nat_numeral cos_coeff_def fact_numeral)

lemma taylor_lower:
  "6 / 10 ^ 17 \<le> (\<Sum>m<24. cos_coeff m * half_pi_float ^ m) - half_pi_float ^ 24 / fact 24"
  unfolding cos_sum_24 half_pi_float_def by (simp add: fact_numeral power_divide)

lemma taylor_upper:
  "(\<Sum>m<24. cos_coeff m * half_pi_float ^ m) + half_pi_float ^ 24 / fact 24 \<le> 62 / 10 ^ 18"
  unfolding cos_sum_24 half_pi_float_def by (simp add: fact_numeral power_divide)

lemma cos_half_pi_float_bounds:
  "6 / 10 ^ 17 \<le> cos half_pi_float" "cos half_pi_float \<le> 62 / 10 ^ 18"
proof -
  have pos: "0 < half_pi_float" by (simp add: half_pi_float_def)
  obtain t where t: "cos half_pi_float =
      (\<Sum>m<24. cos_coeff m * half_pi_float ^ m)
      + (cos (t + 1/2 * real (24::nat) * pi) / fact 24) * half_pi_float ^ 24"
    using Maclaurin_cos_expansion2 [OF pos, of 24] by auto
  define c where "c = cos (t + 1/2 * real (24::nat) * pi)"
  have c: "- 1 \<le> c" "c \<le> 1" by (simp_all add: c_def)
  define R :: real where "R = half_pi_float ^ 24 / fact 24"
  have R: "0 \<le> R" using pos by (simp add: R_def)
  have eq: "cos half_pi_float = (\<Sum>m<24. cos_coeff m * half_pi_float ^ m) + c * R"
    using t by (simp add: c_def R_def)
  have "c * R \<le> 1 * R" using c R by (intro mult_right_mono) auto
  moreover have "(- 1) * R \<le> c * R" using c R by (intro mult_right_mono) auto
  ultimately have cr: "- R \<le> c * R" "c * R \<le> R" by simp_all
  show "6 / 10 ^ 17 \<le> cos half_pi_float"
    using taylor_lower cr eq unfolding R_def by linarith
  show "cos half_pi_float \<le> 62 / 10 ^ 18"
    using taylor_upper cr eq unfolding R_def by linarith
qed

lemma half_pi_float_range: "0 < half_pi_float" "half_pi_float < pi / 2"
proof -
  show pos: "0 < half_pi_float" by (simp add: half_pi_float_def)
  have le2: "half_pi_float \<le> 2" by (simp add: half_pi_float_def)
  show "half_pi_float < pi / 2"
  proof (rule ccontr)
    assume "\<not> half_pi_float < pi / 2"
    then have "pi / 2 \<le> half_pi_float" by simp
    moreover have "half_pi_float \<le> pi" using le2 pi_ge_two by linarith
    ultimately have "cos half_pi_float \<le> cos (pi / 2)"
      by (intro cos_monotone_0_pi_le) auto
    then show False using cos_half_pi_float_bounds(1) by simp
  qed
qed

lemma cos_lipschitz: "\<bar>cos x - cos y\<bar> \<le> \<bar>x - y\<bar>" for x y :: real
proof -
  have "\<bar>cos x - cos y\<bar> = 2 * \<bar>sin ((x + y) / 2)\<bar> * \<bar>sin ((y - x) / 2)\<bar>"
    by (simp add: cos_diff_cos abs_mult)
  also have "\<dots> \<le> 2 * 1 * \<bar>(y - x) / 2\<bar>"
    by (intro mult_mono mult_nonneg_nonneg abs_sin_x_le_abs_x) auto
  finally show ?thesis by simp
qed

lemma tan_capped:
  assumes "0 \<le> \<theta>" "\<theta> \<le> half_pi_float"
  shows "0 \<le> tan \<theta>" "tan \<theta> \<le> 10 ^ 17 / 6"
proof -
  have lt: "\<theta> < pi / 2" using assms half_pi_float_range by linarith
  show "0 \<le> tan \<theta>" using assms lt by (simp add: tan_pos_pi2_le)
  have "tan \<theta> \<le> tan half_pi_float"
    using assms lt half_pi_float_range by (intro tan_mono_le) auto
  also have "\<dots> = sin half_pi_float / cos half_pi_float" by (simp add: tan_def)
  also have "\<dots> \<le> 1 / cos half_pi_float"
    using cos_half_pi_float_bounds(1) by (intro divide_right_mono) auto
  also have "\<dots> \<le> 1 / (6 / 10 ^ 17)"
    using cos_half_pi_float_bounds(1) by (intro divide_left_mono) auto
  finally show "tan \<theta> \<le> 10 ^ 17 / 6" by simp
qed

lemma arccos_result:
  assumes "0 \<le> x" "x \<le> 1"
  shows "\<exists>\<theta>. np_arccos L (Finite x) = Finite \<theta> \<and> 0 \<le> \<theta> \<and> \<theta> \<le> half_pi_float \<and>
           \<bar>cos \<theta> - x\<bar> \<le> 1 / 2 ^ 49 \<and> (x = 1 \<longrightarrow> \<theta> = 0)"
proof -
  define \<theta>0 where "\<theta>0 = arccos x"
  define y where "y = \<theta>0 * (1 + clip (arccos_err L x))"
  define \<theta> where "\<theta> = min half_pi_float y"
  have res: "np_arccos L (Finite x) = Finite \<theta>"
    using assms by (simp add: \<theta>_def y_def \<theta>0_def Let_def)
  have t0: "0 \<le> \<theta>0" "\<theta>0 \<le> pi / 2" "cos \<theta>0 = x"
  proof -
    show "0 \<le> \<theta>0" using assms by (simp add: \<theta>0_def arccos_lbound)
    show "\<theta>0 \<le> pi / 2" unfolding \<theta>0_def using assms by (rule arccos_le_pi2)
    show "cos \<theta>0 = x" using assms by (simp add: \<theta>0_def)
  qed
  have t0_2: "\<theta>0 \<le> 2" using t0(2) pi_half_le_two by linarith
  have y0: "0 \<le> y" using t0(1) one_plus_clip(3) [of "arccos_err L x"] by (simp add: y_def)
  have "\<bar>y - \<theta>0\<bar> = \<theta>0 * \<bar>clip (arccos_err L x)\<bar>"
    using t0(1) by (simp add: y_def algebra_simps abs_mult)
  also have "\<dots> \<le> 2 * rel_err"
    using t0(1) t0_2 clip_bounds [of "arccos_err L x"] by (intro mult_mono) auto
  finally have dy: "\<bar>y - \<theta>0\<bar> \<le> 1 / 2 ^ 49" by (simp add: rel_err_def)
  have nonneg: "0 \<le> \<theta>" using y0 half_pi_float_range(1) by (simp add: \<theta>_def)
  have cap: "\<theta> \<le> half_pi_float" by (simp add: \<theta>_def)
  have close: "\<bar>cos \<theta> - x\<bar> \<le> 1 / 2 ^ 49"
  proof (cases "y \<le> half_pi_float")
    case True
    then have "\<theta> = y" by (simp add: \<theta>_def)
    then have "\<bar>cos \<theta> - x\<bar> \<le> \<bar>y - \<theta>0\<bar>" using cos_lipschitz [of y \<theta>0] t0(3) by simp
    then show ?thesis using dy by linarith
  next
    case False
    then have th: "\<theta> = half_pi_float" by (simp add: \<theta>_def)
    show ?thesis
    proof (cases "\<theta>0 \<le> half_pi_float")
      case True
      then have "\<bar>half_pi_float - \<theta>0\<bar> \<le> \<bar>y - \<theta>0\<bar>" using False by simp
      moreover have "\<bar>cos \<theta> - x\<bar> \<le> \<bar>half_pi_float - \<theta>0\<bar>"
        using cos_lipschitz [of half_pi_float \<theta>0] t0(3) th by simp
      ultimately show ?thesis using dy by linarith
    next
      case False
      then have "half_pi_float < \<theta>0" by simp
      moreover have "\<theta>0 \<le> pi" using t0(2) pi_ge_zero by linarith
      ultimately have "cos \<theta>0 < cos half_pi_float"
        using half_pi_float_range(1) by (intro cos_monotone_0_pi) auto
      then have "\<bar>cos \<theta> - x\<bar> \<le> cos half_pi_float" using t0(3) assms(1) th by simp
      moreover have "(62 / 10 ^ 18 :: real) \<le> 1 / 2 ^ 49" by simp
      ultimately show ?thesis using cos_half_pi_float_bounds(2) by linarith
    qed
  qed
  have one: "x = 1 \<longrightarrow> \<theta> = 0"
    using half_pi_float_range(1) by (auto simp add: \<theta>_def y_def \<theta>0_def)
  show ?thesis using res nonneg cap close one by blast
qed

lemma compute_pos:
  assumes "0 < pf" "pf \<le> 1"
  shows "compute L (Finite a) (Finite pf) =
     Inr \<lparr>P = Finite a, Q = fmul (Finite a) (np_tan L (np_arccos L (Finite pf))),
          S = fdiv (Finite a) (Finite pf), angle = np_arccos L (Finite pf)\<rparr>"
  using assms by (simp add: compute_def f_eq_def py_div_def Let_def)

lemma general_result:
  assumes "0 < pf" "pf \<le> 1"
  shows "\<exists>\<theta> c. compute L (Finite a) (Finite pf) =
            Inr \<lparr>P = Finite a, Q = to_float (a * (tan \<theta> * (1 + c))),
                 S = to_float (a / pf), angle = Finite \<theta>\<rparr> \<and>
            0 \<le> \<theta> \<and> \<theta> \<le> half_pi_float \<and> \<bar>cos \<theta> - pf\<bar> \<le> 1 / 2 ^ 49 \<and>
            \<bar>c\<bar> \<le> rel_err \<and> (pf = 1 \<longrightarrow> \<theta> = 0)"
proof -
  obtain \<theta> where th: "np_arccos L (Finite pf) = Finite \<theta>" "0 \<le> \<theta>" "\<theta> \<le> half_pi_float"
      "\<bar>cos \<theta> - pf\<bar> \<le> 1 / 2 ^ 49" "pf = 1 \<longrightarrow> \<theta> = 0"
    using arccos_result [of pf L] assms by auto
  define c where "c = clip (tan_err L \<theta>)"
  have c: "\<bar>c\<bar> \<le> rel_err" using clip_bounds [of "tan_err L \<theta>"] by (simp add: c_def abs_le_iff)
  have "compute L (Finite a) (Finite pf) =
            Inr \<lparr>P = Finite a, Q = to_float (a * (tan \<theta> * (1 + c))),
                 S = to_float (a / pf), angle = Finite \<theta>\<rparr>"
    using assms th(1) by (simp add: compute_pos c_def)
  then show ?thesis using th c by blast
qed

lemma tangent_nonneg:
  assumes "0 \<le> \<theta>" "\<theta> \<le> half_pi_float" "\<bar>c\<bar> \<le> rel_err"
  shows "0 \<le> tan \<theta> * (1 + c)" "tan \<theta> * (1 + c) \<le> 10 ^ 17 / 3"
proof -
  have u: "rel_err \<le> 1" by (simp add: rel_err_def)
  have c: "0 \<le> 1 + c" "1 + c \<le> 2" using assms(3) u by (simp_all add: abs_le_iff)
  show "0 \<le> tan \<theta> * (1 + c)" using tan_capped(1) [OF assms(1,2)] c by simp
  have "tan \<theta> * (1 + c) \<le> (10 ^ 17 / 6) * 2"
    using tan_capped [OF assms(1,2)] c by (intro mult_mono) auto
  then show "tan \<theta> * (1 + c) \<le> 10 ^ 17 / 3" by simp
qed

lemma sqrt_one_plus_bounds:
  assumes k: "0 < k" and sec: "1 + T\<^sup>2 = 1 / k\<^sup>2" and c: "\<bar>c\<bar> \<le> u" and u: "0 \<le> u" "u \<le> 1"
  shows "(1 - u) / k \<le> sqrt (1 + (T * (1 + c))\<^sup>2)" "sqrt (1 + (T * (1 + c))\<^sup>2) \<le> (1 + u) / k"
proof -
  have c1: "1 - u \<le> 1 + c" "1 + c \<le> 1 + u" "0 \<le> 1 + c" "0 \<le> 1 - u"
    using c u by (simp_all add: abs_le_iff)
  have sq_hi: "(1 + c)\<^sup>2 \<le> (1 + u)\<^sup>2" using c1 by (intro power_mono) auto
  have sq_lo: "(1 - u)\<^sup>2 \<le> (1 + c)\<^sup>2" using c1 by (intro power_mono) auto
  have one_hi: "1 \<le> (1 + u)\<^sup>2" using u by (simp add: one_le_power)
  have one_lo: "(1 - u)\<^sup>2 \<le> 1" using u c1 by (simp add: power_le_one)
  have "1 + (T * (1 + c))\<^sup>2 = 1 + T\<^sup>2 * (1 + c)\<^sup>2" by (simp add: power_mult_distrib)
  also have "\<dots> \<le> (1 + u)\<^sup>2 + T\<^sup>2 * (1 + u)\<^sup>2"
    using sq_hi one_hi by (intro add_mono mult_left_mono) auto
  also have "\<dots> = (1 + u)\<^sup>2 * (1 + T\<^sup>2)" by (simp add: algebra_simps)
  also have "\<dots> = ((1 + u) / k)\<^sup>2" by (simp add: sec power_divide)
  finally have "1 + (T * (1 + c))\<^sup>2 \<le> ((1 + u) / k)\<^sup>2" .
  moreover have "0 \<le> (1 + u) / k" using k u by simp
  ultimately show "sqrt (1 + (T * (1 + c))\<^sup>2) \<le> (1 + u) / k" by (intro real_le_lsqrt)
  have "((1 - u) / k)\<^sup>2 = (1 - u)\<^sup>2 * (1 + T\<^sup>2)" by (simp add: sec power_divide)
  also have "\<dots> = (1 - u)\<^sup>2 + T\<^sup>2 * (1 - u)\<^sup>2" by (simp add: algebra_simps)
  also have "\<dots> \<le> 1 + T\<^sup>2 * (1 + c)\<^sup>2"
    using sq_lo one_lo by (intro add_mono mult_left_mono) auto
  also have "\<dots> = 1 + (T * (1 + c))\<^sup>2" by (simp add: power_mult_distrib)
  finally show "(1 - u) / k \<le> sqrt (1 + (T * (1 + c))\<^sup>2)" by (rule real_le_rsqrt)
qed

lemma ratio_bounds:
  fixes pf k :: real
  assumes pf: "1 / 2 ^ 20 \<le> pf" and k: "\<bar>k - pf\<bar> \<le> 1 / 2 ^ 49"
  shows "0 < k" "(1 + rel_err) / k \<le> (1 + 1 / 2 ^ 28) / pf" "(1 - 1 / 2 ^ 28) / pf \<le> (1 - rel_err) / k"
proof -
  have "(0::real) < 1 / 2 ^ 20" by simp
  then have pfpos: "0 < pf" using pf by linarith
  have "k - pf \<le> 1 / 2 ^ 49" "- (k - pf) \<le> 1 / 2 ^ 49"
    using k by (rule abs_le_D1, rule abs_le_D2)
  then have klo: "pf - 1 / 2 ^ 49 \<le> k" and khi: "k \<le> pf + 1 / 2 ^ 49" by linarith+
  have "(1 / 2 ^ 49 :: real) < 1 / 2 ^ 20" by simp
  then show kpos: "0 < k" using klo pf by linarith
  have "(1 + rel_err) * pf \<le> (1 + 1 / 2 ^ 28) * (pf - 1 / 2 ^ 49)"
    using pf by (simp add: rel_err_def algebra_simps)
  also have "\<dots> \<le> (1 + 1 / 2 ^ 28) * k" using klo by (intro mult_left_mono) auto
  finally show "(1 + rel_err) / k \<le> (1 + 1 / 2 ^ 28) / pf"
    using kpos pfpos by (simp add: field_simps)
  have "(1 - 1 / 2 ^ 28) * k \<le> (1 - 1 / 2 ^ 28) * (pf + 1 / 2 ^ 49)"
    using khi by (intro mult_left_mono) auto
  also have "\<dots> \<le> (1 - rel_err) * pf"
    using pf by (simp add: rel_err_def algebra_simps)
  finally show "(1 - 1 / 2 ^ 28) / pf \<le> (1 - rel_err) / k"
    using kpos pfpos by (simp add: field_simps)
qed

lemma hyp_tolerance:
  assumes a: "0 \<le> a" and pf: "1 / 2 ^ 20 \<le> pf" "pf \<le> 1"
    and th: "0 \<le> \<theta>" "\<theta> \<le> half_pi_float" "\<bar>cos \<theta> - pf\<bar> \<le> 1 / 2 ^ 49"
    and c: "\<bar>c\<bar> \<le> rel_err"
  shows "\<bar>sqrt (a\<^sup>2 + (a * (tan \<theta> * (1 + c)))\<^sup>2) - a / pf\<bar> \<le> (a / pf) / 2 ^ 28"
proof -
  define k where "k = cos \<theta>"
  define w where "w = sqrt (1 + (tan \<theta> * (1 + c))\<^sup>2)"
  have "(0::real) < 1 / 2 ^ 20" by simp
  then have pfpos: "0 < pf" using pf(1) by linarith
  have rb: "0 < k" "(1 + rel_err) / k \<le> (1 + 1 / 2 ^ 28) / pf"
      "(1 - 1 / 2 ^ 28) / pf \<le> (1 - rel_err) / k"
    using ratio_bounds [OF pf(1), of k] th(3) by (simp_all add: k_def)
  have sec: "1 + (tan \<theta>)\<^sup>2 = 1 / k\<^sup>2"
    using rb(1) tan_sec [of \<theta>] by (simp add: k_def inverse_eq_divide power_divide)
  have u: "0 \<le> rel_err" "rel_err \<le> 1" by (simp_all add: rel_err_def)
  have wb: "(1 - rel_err) / k \<le> w" "w \<le> (1 + rel_err) / k"
    unfolding w_def using sqrt_one_plus_bounds [OF rb(1) sec c u] by simp_all
  have w: "(1 - 1 / 2 ^ 28) / pf \<le> w" "w \<le> (1 + 1 / 2 ^ 28) / pf"
    using wb rb by linarith+
  have "a\<^sup>2 + (a * t)\<^sup>2 = a\<^sup>2 * (1 + t\<^sup>2)" for t :: real
    by (simp add: power_mult_distrib distrib_left)
  then have eq: "sqrt (a\<^sup>2 + (a * (tan \<theta> * (1 + c)))\<^sup>2) = a * w"
    using a by (simp only: w_def real_sqrt_mult real_sqrt_abs abs_of_nonneg)
  have lo: "a * ((1 - 1 / 2 ^ 28) / pf) \<le> a * w" using w(1) a by (rule mult_left_mono)
  have hi: "a * w \<le> a * ((1 + 1 / 2 ^ 28) / pf)" using w(2) a by (rule mult_left_mono)
  have "a * ((1 - 1 / 2 ^ 28) / pf) = a / pf - (a / pf) / 2 ^ 28"
    "a * ((1 + 1 / 2 ^ 28) / pf) = a / pf + (a / pf) / 2 ^ 28"
    by (simp_all add: diff_divide_distrib add_divide_distrib distrib_left right_diff_distrib)
  then have "\<bar>a * w - a / pf\<bar> \<le> (a / pf) / 2 ^ 28"
    using lo hi unfolding abs_le_iff by linarith
  then show ?thesis by (simp add: eq)
qed



lemma compute_unity:
  assumes "in_range a"
  shows "compute L (Finite a) (Finite 1) =
           Inr \<lparr>P = Finite a, Q = Finite 0, S = Finite a, angle = Finite 0\<rparr>"
proof -
  have "min half_pi_float 0 = (0::real)" using half_pi_float_range(1) by simp
  then show ?thesis using assms
    by (simp add: compute_pos to_float_in_range to_float_zero Let_def)
qed

lemma py_float_inf: "py_float ''inf'' = Some PosInf"
  by (simp add: py_float_def strip_def is_space_def parse_decimal_def split_sign_def is_digit_def
      parse_inf_or_nan_def lower_def)

lemma py_float_nan: "py_float ''nan'' = Some NaN"
  by (simp add: py_float_def strip_def is_space_def parse_decimal_def split_sign_def is_digit_def
      parse_inf_or_nan_def lower_def)

lemma py_float_one: "py_float ''1'' = Some (Finite 1)"
  by (simp add: py_float_def strip_def is_space_def parse_decimal_def split_sign_def is_digit_def
      parse_exponent_def digits_to_nat_def digit_val_def scale10_def to_float_def
      overflow_threshold_def)

section \<open>The computation\<close>



text \<open>
  Claim C2. When the power factor equals 0 the computation returns the degenerate
  convention: P is 0, Q and S are the active power input, and the angle is a quarter turn.
  It holds for every input value, those of at least 0 among them.
\<close>

theorem compute_zero_power_factor:
  "compute L a (Finite 0) = Inr \<lparr>P = Finite 0, Q = a, S = a, angle = Finite (pi / 2)\<rparr>"
  by (simp add: compute_def f_eq_def)




text \<open>
  Claim C5, as stated: for every active power input of at least 0 and every power factor
  above 0 the output is finite. It fails inside the validated domain: the binary64 value
  \<open>2 ^ 1023\<close> divided by one half overflows, and S is infinite. It fails above the domain
  too: at the power factor 2 the arc cosine, and with it the angle, is NaN.
\<close>

theorem output_not_finite_counterexample:
  "in_range (2 ^ 1023) \<and> (0::real) \<le> 2 ^ 1023 \<and> (0::real) < 1 / 2 \<and> (1 / 2 :: real) \<le> 1 \<and>
   map_sum id S (compute exact_libm (Finite (2 ^ 1023)) (Finite (1 / 2))) = Inr PosInf \<and>
   map_sum id all_finite (compute exact_libm (Finite (2 ^ 1023)) (Finite (1 / 2))) = Inr False \<and>
   map_sum id angle (compute exact_libm (Finite 1) (Finite 2)) = Inr NaN"
  by (simp add: compute_def f_eq_def py_div_def all_finite_def to_float_def in_range_def
      overflow_threshold_def Let_def)

text \<open>
  Claim C5, amended. For every finite active power input of at least 0 and every power
  factor above 0, the division is guarded: no division by zero occurs and no error is
  raised. P is finite, and S is finite exactly when the quotient of the two inputs is
  below the binary64 overflow threshold. For a power factor of at most 1 the angle is
  finite and Q is not NaN. The whole output is finite when the power factor is from
  \<open>1 / 2 ^ 20\<close> to 1 and the quotient, enlarged by the factor \<open>1 + 1 / 2 ^ 28\<close>, is
  below the threshold; for smaller power factors Q may overflow while S does not.
\<close>

theorem no_error_and_finite:
  assumes "0 \<le> a" "0 < pf"
  shows "\<exists>r. compute L (Finite a) (Finite pf) = Inr r \<and>
             is_finite (P r) \<and>
             is_finite (S r) = (a / pf < overflow_threshold) \<and>
             (pf \<le> 1 \<longrightarrow> is_finite (angle r) \<and> Q r \<noteq> NaN) \<and>
             (1 / 2 ^ 20 \<le> pf \<and> pf \<le> 1 \<and> a / pf * (1 + 1 / 2 ^ 28) < overflow_threshold
                \<longrightarrow> all_finite r)"
proof (cases "pf \<le> 1")
  case True
  have nonneg: "0 \<le> a / pf" using assms by simp
  obtain \<theta> c where r: "compute L (Finite a) (Finite pf) =
            Inr \<lparr>P = Finite a, Q = to_float (a * (tan \<theta> * (1 + c))),
                 S = to_float (a / pf), angle = Finite \<theta>\<rparr>"
      and th: "0 \<le> \<theta>" "\<theta> \<le> half_pi_float" "\<bar>cos \<theta> - pf\<bar> \<le> 1 / 2 ^ 49" "\<bar>c\<bar> \<le> rel_err"
    using general_result [OF assms(2) True, of L a] by blast
  define q where "q = a * (tan \<theta> * (1 + c))"
  have q0: "0 \<le> q" using assms(1) tangent_nonneg(1) [OF th(1,2,4)] by (simp add: q_def)
  have s: "is_finite (to_float (a / pf)) = (a / pf < overflow_threshold)"
    using nonneg by (auto simp add: to_float_nonneg)
  have qn: "to_float q \<noteq> NaN" using q0 by (simp add: to_float_nonneg)
  have fin: "is_finite (to_float q)"
    if big: "1 / 2 ^ 20 \<le> pf" "a / pf * (1 + 1 / 2 ^ 28) < overflow_threshold"
  proof -
    have "\<bar>sqrt (a\<^sup>2 + q\<^sup>2) - a / pf\<bar> \<le> (a / pf) / 2 ^ 28"
      unfolding q_def using assms(1) big(1) True th by (rule hyp_tolerance)
    then have "sqrt (a\<^sup>2 + q\<^sup>2) \<le> a / pf * (1 + 1 / 2 ^ 28)"
      by (simp add: abs_le_iff algebra_simps)
    moreover have "q \<le> sqrt (a\<^sup>2 + q\<^sup>2)" using q0 by (intro real_le_rsqrt) simp
    ultimately have "q < overflow_threshold" using big(2) by linarith
    then show ?thesis using q0 by (simp add: to_float_nonneg)
  qed
  show ?thesis
    using r s qn fin True nonneg by (auto simp add: q_def all_finite_def)
next
  case False
  have nonneg: "0 \<le> a / pf" using assms by simp
  have s: "is_finite (to_float (a / pf)) = (a / pf < overflow_threshold)"
    using nonneg by (auto simp add: to_float_nonneg)
  show ?thesis using False assms s
    by (auto simp add: compute_def f_eq_def py_div_def Let_def)
qed

theorem no_error_and_finite_witness:
  "(0::real) \<le> 100 \<and> (0::real) < 4 / 5 \<and> (4 / 5 :: real) \<le> 1 \<and> (1 / 2 ^ 20 :: real) \<le> 4 / 5 \<and>
   (100 / (4 / 5) * (1 + 1 / 2 ^ 28) :: real) < overflow_threshold \<and>
   (\<exists>r. compute exact_libm (Finite 100) (Finite (4 / 5)) = Inr r \<and> is_finite (S r) \<and>
        all_finite r)"
  using no_error_and_finite [of 100 "4 / 5" exact_libm]
  by (auto simp add: overflow_threshold_def)





text \<open>
  Claim C8. The computation is deterministic and idempotent: two states that agree on the
  active power and the power factor yield the same outcome (the same figures, or the same
  error), whatever else they hold; and a second run, on the state the first run left,
  changes nothing.
\<close>

theorem update_plot_deterministic:
  "(active_power s1 = active_power s2 \<longrightarrow> power_factor s1 = power_factor s2 \<longrightarrow>
      map_sum id shown (update_plot L s1) = map_sum id shown (update_plot L s2)) \<and>
   (update_plot L s1 = Inr s' \<longrightarrow> update_plot L s' = Inr s')"
  by (auto simp add: update_plot_def split: option.splits sum.splits)

theorem update_plot_deterministic_witness:
  "active_power \<lparr>active_power = Some (Finite 100), power_factor = Some (Finite 1), shown = None\<rparr> =
   active_power \<lparr>active_power = Some (Finite 100), power_factor = Some (Finite 1),
      shown = Some \<lparr>P = NaN, Q = NaN, S = NaN, angle = NaN\<rparr>\<rparr> \<and>
   map_sum id shown
     (update_plot exact_libm
        \<lparr>active_power = Some (Finite 100), power_factor = Some (Finite 1), shown = None\<rparr>) =
   map_sum id shown
     (update_plot exact_libm
        \<lparr>active_power = Some (Finite 100), power_factor = Some (Finite 1),
         shown = Some \<lparr>P = NaN, Q = NaN, S = NaN, angle = NaN\<rparr>\<rparr>) \<and>
   update_plot exact_libm
     \<lparr>active_power = Some (Finite 100), power_factor = Some (Finite 1), shown = None\<rparr> =
     Inr \<lparr>active_power = Some (Finite 100), power_factor = Some (Finite 1),
        shown = Some \<lparr>P = Finite 100, Q = Finite 0, S = Finite 100, angle = Finite 0\<rparr>\<rparr> \<and>
   update_plot exact_libm
     \<lparr>active_power = Some (Finite 100), power_factor = Some (Finite 1),
      shown = Some \<lparr>P = Finite 100, Q = Finite 0, S = Finite 100, angle = Finite 0\<rparr>\<rparr> =
     Inr \<lparr>active_power = Some (Finite 100), power_factor = Some (Finite 1),
        shown = Some \<lparr>P = Finite 100, Q = Finite 0, S = Finite 100, angle = Finite 0\<rparr>\<rparr>"
proof -
  have r: "in_range 100" by (simp add: in_range_def overflow_threshold_def)
  show ?thesis
    using update_plot_deterministic
      [of "\<lparr>active_power = Some (Finite 100), power_factor = Some (Finite 1), shown = None\<rparr>"
          "\<lparr>active_power = Some (Finite 100), power_factor = Some (Finite 1),
            shown = Some \<lparr>P = NaN, Q = NaN, S = NaN, angle = NaN\<rparr>\<rparr>"
          exact_libm
          "\<lparr>active_power = Some (Finite 100), power_factor = Some (Finite 1),
            shown = Some \<lparr>P = Finite 100, Q = Finite 0, S = Finite 100, angle = Finite 0\<rparr>\<rparr>"]
    by (simp add: update_plot_def compute_unity [OF r])
qed




section \<open>The validators\<close>

text \<open>
  Claim C3, as stated: the active-power validator accepts a string exactly when it is empty
  or parses as a real number of at least 0. It fails at the string \<open>inf\<close>: the validator
  accepts it, and it parses as positive infinity, which is no real number.
\<close>

theorem validator_accepts_inf_counterexample:
  "validate_active_power py_float ''inf'' \<noteq>
     (''inf'' = [] \<or> parses_as_real_ge0 py_float ''inf'')"
  by (simp add: validate_active_power_def parses_as_real_ge0_def py_float_inf f_ge_def)

text \<open>
  Claim C3, amended. The active-power validator accepts a string exactly when it is empty,
  or parses as a real number of at least 0, or parses as positive infinity. The
  power-factor validator accepts a string exactly when it is empty or parses as a real
  number in the closed interval from 0 to 1. Every other string is rejected.
\<close>

theorem validators_accept_iff:
  "validate_active_power float_fn s =
     (s = [] \<or> parses_as_real_ge0 float_fn s \<or> float_fn s = Some PosInf) \<and>
   validate_power_factor float_fn s = (s = [] \<or> parses_as_real_in_unit float_fn s)"
  by (auto simp add: validate_active_power_def validate_power_factor_def
      parses_as_real_ge0_def parses_as_real_in_unit_def f_ge_def
      split: option.splits pyfloat.splits)

text \<open>
  Claim C10. The validators accept every string that the float parser accepts with a value
  in range, so a non-finite spelling passes: the active-power validator accepts \<open>inf\<close>,
  which parses as positive infinity. \<open>nan\<close> parses as NaN and both validators reject it,
  every comparison with NaN being false.
\<close>

theorem validators_nonfinite:
  "(float_fn s = Some v \<longrightarrow> f_ge v (Finite 0) \<longrightarrow> validate_active_power float_fn s) \<and>
   (float_fn s = Some v \<longrightarrow> f_le (Finite 0) v \<longrightarrow> f_le v (Finite 1) \<longrightarrow>
      validate_power_factor float_fn s) \<and>
   py_float ''inf'' = Some PosInf \<and> f_ge PosInf (Finite 0) \<and>
   validate_active_power py_float ''inf'' \<and>
   py_float ''nan'' = Some NaN \<and>
   \<not> validate_active_power py_float ''nan'' \<and>
   \<not> validate_power_factor py_float ''nan''"
  by (simp add: validate_active_power_def validate_power_factor_def py_float_inf py_float_nan
      f_ge_def)

theorem validators_nonfinite_witness:
  "py_float ''inf'' = Some PosInf \<and> f_ge PosInf (Finite 0) \<and>
   validate_active_power py_float ''inf'' \<and>
   py_float ''1'' = Some (Finite 1) \<and> f_le (Finite 0) (Finite 1) \<and> f_le (Finite 1) (Finite 1) \<and>
   validate_power_factor py_float ''1''"
  using validators_nonfinite [of py_float "''1''" "Finite 1"]
  by (simp add: py_float_one py_float_inf f_ge_def)

end
